theory Spec2Isabelle
  imports Main
begin

section \<open>The CSS selector builder of \<open>05-objects-tasks.js\<close>\<close>

subsection \<open>Errors and outcomes\<close>

text \<open>
  Both failures of the builder are \<open>throw new Error(message)\<close>; the two kinds differ
  in the message only. The first message is the uniqueness failure (the specification's
  \<open>DuplicateError\<close>), the second the ordering failure (\<open>OrderViolation\<close>).
  \<open>TypeError\<close> and \<open>SyntaxError\<close> are the errors of the runtime's own functions
  (\<open>Object.keys\<close>, \<open>JSON.parse\<close>); their message texts are not modelled.
\<close>

datatype js_error = Error string | TypeError | SyntaxError

definition DuplicateError :: js_error where
  "DuplicateError =
     Error ''Element, id and pseudo-element should not occur more then one time inside the selector''"

definition OrderViolation :: js_error where
  "OrderViolation =
     Error ''Selector parts should be arranged in the following order: element, id, class, attribute, pseudo-class, pseudo-element''"

text \<open>
  A method of \<open>CreateElement\<close> mutates \<open>this\<close> in place and either reaches
  \<open>return this\<close> or throws. A call is modelled as a function from the instance before
  the call to the outcome paired with the instance after the call, so that the state
  left behind by a throwing call stays observable.
\<close>

datatype outcome = Returned | Threw js_error

subsection \<open>The instance\<close>

record CreateElement =
  tags :: string
  ids :: string
  classes :: string
  attrs :: string
  pseudoClasses :: string
  pseudoElements :: string
  combines :: string

text \<open>The constructor: every field is the empty string.\<close>

definition new_CreateElement :: CreateElement where
  "new_CreateElement =
     \<lparr>tags = [], ids = [], classes = [], attrs = [], pseudoClasses = [],
      pseudoElements = [], combines = []\<rparr>"

text \<open>A string used as a condition is true exactly when it is not empty.\<close>

definition truthy :: "string \<Rightarrow> bool" where
  "truthy s = (s \<noteq> [])"

subsection \<open>The methods\<close>

definition checkFollowing :: "CreateElement \<Rightarrow> string \<Rightarrow> bool" where
  "checkFollowing this selector =
     (if selector = ''element'' then
        \<not> (truthy (ids this) \<or> truthy (classes this) \<or> truthy (attrs this)
           \<or> truthy (pseudoClasses this) \<or> truthy (pseudoElements this))
      else if selector = ''id'' then
        \<not> (truthy (classes this) \<or> truthy (attrs this)
           \<or> truthy (pseudoClasses this) \<or> truthy (pseudoElements this))
      else if selector = ''class'' then
        \<not> (truthy (attrs this) \<or> truthy (pseudoClasses this) \<or> truthy (pseudoElements this))
      else if selector = ''attr'' then
        \<not> (truthy (pseudoClasses this) \<or> truthy (pseudoElements this))
      else if selector = ''pseudoClass'' then
        \<not> truthy (pseudoElements this)
      else True)"

definition element :: "CreateElement \<Rightarrow> string \<Rightarrow> outcome \<times> CreateElement" where
  "element this v =
     (if truthy (tags this) then (Threw DuplicateError, this)
      else if \<not> checkFollowing this ''element'' then (Threw OrderViolation, this)
      else (Returned, this\<lparr>tags := v\<rparr>))"

definition id_method :: "CreateElement \<Rightarrow> string \<Rightarrow> outcome \<times> CreateElement" where
  "id_method this v =
     (if truthy (ids this) then (Threw DuplicateError, this)
      else if \<not> checkFollowing this ''id'' then (Threw OrderViolation, this)
      else (Returned, this\<lparr>ids := ''#'' @ v\<rparr>))"

definition class_method :: "CreateElement \<Rightarrow> string \<Rightarrow> outcome \<times> CreateElement" where
  "class_method this v =
     (if \<not> checkFollowing this ''class'' then (Threw OrderViolation, this)
      else (Returned, this\<lparr>classes := classes this @ ''.'' @ v\<rparr>))"

definition attr :: "CreateElement \<Rightarrow> string \<Rightarrow> outcome \<times> CreateElement" where
  "attr this v =
     (if \<not> checkFollowing this ''attr'' then (Threw OrderViolation, this)
      else (Returned, this\<lparr>attrs := ''['' @ v @ '']''\<rparr>))"

definition pseudoClass :: "CreateElement \<Rightarrow> string \<Rightarrow> outcome \<times> CreateElement" where
  "pseudoClass this v =
     (if \<not> checkFollowing this ''pseudoClass'' then (Threw OrderViolation, this)
      else (Returned, this\<lparr>pseudoClasses := pseudoClasses this @ '':'' @ v\<rparr>))"

definition pseudoElement :: "CreateElement \<Rightarrow> string \<Rightarrow> outcome \<times> CreateElement" where
  "pseudoElement this v =
     (if truthy (pseudoElements this) then (Threw DuplicateError, this)
      else (Returned, this\<lparr>pseudoElements := ''::'' @ v\<rparr>))"

definition stringify :: "CreateElement \<Rightarrow> string" where
  "stringify this =
     (if truthy (combines this) then combines this
      else tags this @ ids this @ classes this @ attrs this @ pseudoClasses this
           @ pseudoElements this)"

text \<open>
  \<open>combine\<close> reads both operands through their \<open>stringify()\<close> before it assigns, so
  the operands enter as the instances they are at the time of the call.
\<close>

definition combine ::
  "CreateElement \<Rightarrow> CreateElement \<Rightarrow> string \<Rightarrow> CreateElement \<Rightarrow> outcome \<times> CreateElement" where
  "combine this selector1 combinator selector2 =
     (Returned,
      this\<lparr>combines := stringify selector1 @ '' '' @ combinator @ '' '' @ stringify selector2\<rparr>)"

subsection \<open>The facade \<open>cssSelectorBuilder\<close>\<close>

text \<open>Every entry point of the facade calls the method on a new instance.\<close>

definition builder_element :: "string \<Rightarrow> outcome \<times> CreateElement" where
  "builder_element v = element new_CreateElement v"

definition builder_id :: "string \<Rightarrow> outcome \<times> CreateElement" where
  "builder_id v = id_method new_CreateElement v"

definition builder_class :: "string \<Rightarrow> outcome \<times> CreateElement" where
  "builder_class v = class_method new_CreateElement v"

definition builder_attr :: "string \<Rightarrow> outcome \<times> CreateElement" where
  "builder_attr v = attr new_CreateElement v"

definition builder_pseudoClass :: "string \<Rightarrow> outcome \<times> CreateElement" where
  "builder_pseudoClass v = pseudoClass new_CreateElement v"

definition builder_pseudoElement :: "string \<Rightarrow> outcome \<times> CreateElement" where
  "builder_pseudoElement v = pseudoElement new_CreateElement v"

definition builder_combine ::
  "CreateElement \<Rightarrow> string \<Rightarrow> CreateElement \<Rightarrow> outcome \<times> CreateElement" where
  "builder_combine selector1 combinator selector2 =
     combine new_CreateElement selector1 combinator selector2"

subsection \<open>Chained calls\<close>

text \<open>
  A chain \<open>x.m1(a).m2(b)...\<close> runs the calls from left to right on the same instance
  (every method returns \<open>this\<close>); the first throw ends the chain, and the calls after
  it are not made.
\<close>

datatype call =
    Element string
  | Id string
  | Class string
  | Attr string
  | PseudoClass string
  | PseudoElement string
  | Combine CreateElement string CreateElement

fun invoke :: "CreateElement \<Rightarrow> call \<Rightarrow> outcome \<times> CreateElement" where
  "invoke this (Element v) = element this v"
| "invoke this (Id v) = id_method this v"
| "invoke this (Class v) = class_method this v"
| "invoke this (Attr v) = attr this v"
| "invoke this (PseudoClass v) = pseudoClass this v"
| "invoke this (PseudoElement v) = pseudoElement this v"
| "invoke this (Combine a c b) = combine this a c b"

fun chain :: "CreateElement \<Rightarrow> call list \<Rightarrow> outcome \<times> CreateElement" where
  "chain this [] = (Returned, this)"
| "chain this (c # cs) =
     (case invoke this c of
        (Returned, this') \<Rightarrow> chain this' cs
      | (Threw e, this') \<Rightarrow> (Threw e, this'))"

subsection \<open>What a chain of calls should render, in the specification's words\<close>

text \<open>
  The fragment a call contributes, with its punctuation, and the position of its kind in
  the canonical order element, id, class, attribute, pseudo-class, pseudo-element.
\<close>

fun fragment :: "call \<Rightarrow> string" where
  "fragment (Element v) = v"
| "fragment (Id v) = ''#'' @ v"
| "fragment (Class v) = ''.'' @ v"
| "fragment (Attr v) = ''['' @ v @ '']''"
| "fragment (PseudoClass v) = '':'' @ v"
| "fragment (PseudoElement v) = ''::'' @ v"
| "fragment (Combine a c b) = []"

fun rank :: "call \<Rightarrow> nat" where
  "rank (Element v) = 0"
| "rank (Id v) = 1"
| "rank (Class v) = 2"
| "rank (Attr v) = 3"
| "rank (PseudoClass v) = 4"
| "rank (PseudoElement v) = 5"
| "rank (Combine a c b) = 6"

text \<open>The fragments of one kind that a chain of calls sets, in call order.\<close>

definition fragments_of :: "nat \<Rightarrow> call list \<Rightarrow> string list" where
  "fragments_of k cs = map fragment (filter (\<lambda>c. rank c = k) cs)"

text \<open>
  A single slot (tag, id, attribute, pseudo-element) holds the fragment set last, and is
  empty when none was set; class and pseudo-class fragments accumulate in call order.
\<close>

fun single_slot :: "string list \<Rightarrow> string" where
  "single_slot [] = []"
| "single_slot (x # xs) = last (x # xs)"

text \<open>The same for a slot that already holds \<open>x\<close> before the chain starts.\<close>

fun upd_slot :: "string \<Rightarrow> string list \<Rightarrow> string" where
  "upd_slot x [] = x"
| "upd_slot x (y # ys) = last (y # ys)"

definition spec_render :: "call list \<Rightarrow> string" where
  "spec_render cs =
     single_slot (fragments_of 0 cs) @ single_slot (fragments_of 1 cs)
     @ concat (fragments_of 2 cs) @ single_slot (fragments_of 3 cs)
     @ concat (fragments_of 4 cs) @ single_slot (fragments_of 5 cs)"

text \<open>
  A chain that only moves forward in the canonical order: every call is of a later kind
  than the call before it, or of the same kind when that kind is class, attribute or
  pseudo-class. Kinds may be skipped.
\<close>

definition repeatable :: "call \<Rightarrow> bool" where
  "repeatable c = (rank c = 2 \<or> rank c = 3 \<or> rank c = 4)"

fun forward :: "call list \<Rightarrow> bool" where
  "forward [] = True"
| "forward [c] = (rank c < 6)"
| "forward (c # d # cs) =
     (rank c < 6 \<and> (rank c < rank d \<or> (rank c = rank d \<and> repeatable c)) \<and> forward (d # cs))"

section \<open>The rectangle factory\<close>

text \<open>
  The returned object has two data fields and a method that closes over the
  constructor's parameters, not over the fields. Numbers are values of any type with a
  multiplication: \<open>width * height\<close> is the product the runtime computes.
\<close>

record 'n Rectangle_object =
  width :: 'n
  height :: 'n
  getArea :: "unit \<Rightarrow> 'n"

definition Rectangle :: "'n::times \<Rightarrow> 'n \<Rightarrow> 'n Rectangle_object" where
  "Rectangle w h = \<lparr>width = w, height = h, getArea = (\<lambda>_. w * h)\<rparr>"

section \<open>The JSON helpers\<close>

subsection \<open>Values\<close>

text \<open>
  The values \<open>JSON.parse\<close> can return, and \<open>undefined\<close>. A number is a value of a type
  parameter: nothing below computes with numbers. An object is the list of its own
  enumerable properties in the order \<open>Object.keys\<close> reports them; its keys are distinct.
\<close>

datatype 'n jsvalue =
    JUndefined
  | JNull
  | JBool bool
  | JNum 'n
  | JStr string
  | JArr "'n jsvalue list"
  | JObj "(string \<times> 'n jsvalue) list"

text \<open>The name of an array index: its decimal numeral. \<open>undecimal\<close> reads it back.\<close>

fun decimal :: "nat \<Rightarrow> string" where
  "decimal n =
     (if n < 10 then [char_of (48 + n)]
      else decimal (n div 10) @ [char_of (48 + n mod 10)])"

definition undecimal :: "string \<Rightarrow> nat" where
  "undecimal s = foldl (\<lambda>a c. 10 * a + (of_char c - 48)) 0 s"

text \<open>
  The own enumerable properties of a value: the fields of an object, the elements of an
  array and the characters of a string under their indices, none for a boolean or a
  number.
\<close>

definition own_entries :: "'n jsvalue \<Rightarrow> (string \<times> 'n jsvalue) list" where
  "own_entries v =
     (case v of
        JObj kvs \<Rightarrow> kvs
      | JArr xs \<Rightarrow> zip (map decimal [0..<length xs]) xs
      | JStr s \<Rightarrow> zip (map decimal [0..<length s]) (map (\<lambda>c. JStr [c]) s)
      | _ \<Rightarrow> [])"

text \<open>\<open>Object.keys\<close> throws a \<open>TypeError\<close> on \<open>null\<close> and \<open>undefined\<close>.\<close>

definition Object_keys :: "'n jsvalue \<Rightarrow> js_error + string list" where
  "Object_keys v =
     (case v of
        JUndefined \<Rightarrow> Inl TypeError
      | JNull \<Rightarrow> Inl TypeError
      | _ \<Rightarrow> Inr (map fst (own_entries v)))"

text \<open>
  \<open>obj[key]\<close> for an own key. (For any other key the runtime looks into the value's
  prototype chain, which is not modelled; \<open>fromJSON\<close> reads own keys only.)
\<close>

definition property_get :: "'n jsvalue \<Rightarrow> string \<Rightarrow> 'n jsvalue" where
  "property_get obj key =
     (case map_of (own_entries obj) key of None \<Rightarrow> JUndefined | Some x \<Rightarrow> x)"

subsection \<open>Objects with a prototype, and the runtime\<close>

text \<open>
  The object \<open>fromJSON\<close> builds: a prototype (a value of a type parameter, the identity
  of the prototype object) and the own enumerable data properties, in creation order.
\<close>

record ('p, 'n) js_object =
  prototype :: 'p
  own :: "(string \<times> 'n jsvalue) list"

text \<open>
  The parts of the runtime the two helpers call. \<open>JSON.stringify\<close> and \<open>JSON.parse\<close>
  are parameters. So is what a prototype chain does to an assignment \<open>o[key] = v\<close> on an
  object \<open>o\<close> that has no own property \<open>key\<close>: \<open>inherited rt p key\<close> is \<open>None\<close> when the
  chain of \<open>p\<close> holds no property \<open>key\<close> or a writable data property, and is the effect
  of the assignment on \<open>o\<close> when the chain holds an accessor or a read-only property
  under that name (the setter runs, or the assignment is dropped, or it throws).
\<close>

type_synonym ('p, 'n) setter =
  "('p, 'n) js_object \<Rightarrow> 'n jsvalue \<Rightarrow> js_error + ('p, 'n) js_object"

record ('p, 'n) runtime =
  JSON_stringify :: "'n jsvalue \<Rightarrow> string"
  JSON_parse :: "string \<Rightarrow> js_error + 'n jsvalue"
  inherited :: "'p \<Rightarrow> string \<rightharpoonup> ('p, 'n) setter"

text \<open>
  The assignment \<open>this[key] = v\<close>: an own data property is overwritten in place;
  otherwise the prototype chain decides, and a chain that does not intercept the name
  lets the assignment create a new own property.
\<close>

definition assign ::
  "('p, 'n) runtime \<Rightarrow> ('p, 'n) js_object \<Rightarrow> string \<Rightarrow> 'n jsvalue
   \<Rightarrow> js_error + ('p, 'n) js_object" where
  "assign rt this key v =
     (if key \<in> set (map fst (own this)) then
        Inr (this\<lparr>own := map (\<lambda>(k, x). if k = key then (k, v) else (k, x)) (own this)\<rparr>)
      else
        (case inherited rt (prototype this) key of
           None \<Rightarrow> Inr (this\<lparr>own := own this @ [(key, v)]\<rparr>)
         | Some setter \<Rightarrow> setter this v))"

text \<open>\<open>keys.forEach(f)\<close>, with the state \<open>f\<close> mutates passed along; a throw ends it.\<close>

fun forEach :: "'a list \<Rightarrow> ('a \<Rightarrow> 's \<Rightarrow> js_error + 's) \<Rightarrow> 's \<Rightarrow> js_error + 's" where
  "forEach [] f s = Inr s"
| "forEach (x # xs) f s = (case f x s of Inl e \<Rightarrow> Inl e | Inr s' \<Rightarrow> forEach xs f s')"

subsection \<open>The helpers\<close>

definition getJSON :: "('p, 'n) runtime \<Rightarrow> 'n jsvalue \<Rightarrow> string" where
  "getJSON rt obj = JSON_stringify rt obj"

definition fromJSON ::
  "('p, 'n) runtime \<Rightarrow> 'p \<Rightarrow> string \<Rightarrow> js_error + ('p, 'n) js_object" where
  "fromJSON rt proto json =
     (case JSON_parse rt json of
        Inl e \<Rightarrow> Inl e
      | Inr obj \<Rightarrow>
          (let result = \<lparr>prototype = proto, own = []\<rparr> in
           case Object_keys obj of
             Inl e \<Rightarrow> Inl e
           | Inr keys \<Rightarrow>
               forEach keys (\<lambda>key result. assign rt result key (property_get obj key))
                 result))"

subsection \<open>A runtime for the examples\<close>

text \<open>
  The runtime's JSON functions on the two texts the examples below use, the literal
  \<open>null\<close> and the text \<open>{"radius":10}\<close> of the source's own example; every other text
  is outside this table. The one prototype is an object without a prototype of its own
  and without properties, whose chain intercepts no assignment.
\<close>

definition example_stringify :: "int jsvalue \<Rightarrow> string" where
  \<open>example_stringify v =
     (if v = JNull then ''null''
      else if v = JObj [(''radius'', JNum 10)] then ''{"radius":10}''
      else [])\<close>

definition example_parse :: "string \<Rightarrow> js_error + int jsvalue" where
  \<open>example_parse json =
     (if json = ''null'' then Inr JNull
      else if json = ''{"radius":10}'' then Inr (JObj [(''radius'', JNum 10)])
      else Inl SyntaxError)\<close>

definition example_runtime :: "(unit, int) runtime" where
  "example_runtime =
     \<lparr>JSON_stringify = example_stringify, JSON_parse = example_parse,
      inherited = (\<lambda>proto. Map.empty)\<rparr>"

section \<open>Properties\<close>

subsection \<open>Basic facts about the methods\<close>

lemma checkFollowing_simps:
  "checkFollowing s ''element'' =
     (ids s = [] \<and> classes s = [] \<and> attrs s = [] \<and> pseudoClasses s = [] \<and> pseudoElements s = [])"
  "checkFollowing s ''id'' =
     (classes s = [] \<and> attrs s = [] \<and> pseudoClasses s = [] \<and> pseudoElements s = [])"
  "checkFollowing s ''class'' = (attrs s = [] \<and> pseudoClasses s = [] \<and> pseudoElements s = [])"
  "checkFollowing s ''attr'' = (pseudoClasses s = [] \<and> pseudoElements s = [])"
  "checkFollowing s ''pseudoClass'' = (pseudoElements s = [])"
  by (auto simp add: checkFollowing_def truthy_def)

lemma errors_distinct: "DuplicateError \<noteq> OrderViolation"
  by (simp add: DuplicateError_def OrderViolation_def)

lemmas method_defs =
  element_def id_method_def class_method_def attr_def pseudoClass_def pseudoElement_def
  combine_def

lemmas builder_defs =
  builder_element_def builder_id_def builder_class_def builder_attr_def
  builder_pseudoClass_def builder_pseudoElement_def builder_combine_def

lemma fresh_fields:
  "tags new_CreateElement = []" "ids new_CreateElement = []" "classes new_CreateElement = []"
  "attrs new_CreateElement = []" "pseudoClasses new_CreateElement = []"
  "pseudoElements new_CreateElement = []" "combines new_CreateElement = []"
  by (simp_all add: new_CreateElement_def)

lemma truthy_combined: "truthy (a @ '' '' @ c @ '' '' @ b)"
  by (simp add: truthy_def)

text \<open>What a returning call does to each field.\<close>

lemma invoke_Returned_fields:
  assumes "invoke s c = (Returned, s')"
  shows "tags s' = (if rank c = 0 then fragment c else tags s)"
    and "ids s' = (if rank c = 1 then fragment c else ids s)"
    and "classes s' = (if rank c = 2 then classes s @ fragment c else classes s)"
    and "attrs s' = (if rank c = 3 then fragment c else attrs s)"
    and "pseudoClasses s' = (if rank c = 4 then pseudoClasses s @ fragment c else pseudoClasses s)"
    and "pseudoElements s' = (if rank c = 5 then fragment c else pseudoElements s)"
    and "combines s' = [] \<longleftrightarrow> rank c \<noteq> 6 \<and> combines s = []"
  using assms by (cases c; auto simp: method_defs split: if_splits)+

lemma invoke_failed_same: "fst (invoke s c) \<noteq> Returned \<Longrightarrow> snd (invoke s c) = s"
  by (cases c) (auto simp: method_defs)

lemma chain_Cons_Returned:
  "chain s (c # cs) = (Returned, s') \<Longrightarrow>
   \<exists>s1. invoke s c = (Returned, s1) \<and> chain s1 cs = (Returned, s')"
  by (auto split: prod.splits outcome.splits)

lemma chain_append: "chain s cs = (Returned, s1) \<Longrightarrow> chain s (cs @ ds) = chain s1 ds"
  by (induction cs arbitrary: s) (auto split: prod.splits outcome.splits)

subsection \<open>Rendering\<close>

lemma fragments_of_Nil: "fragments_of k [] = []"
  by (simp add: fragments_of_def)

lemma fragments_of_Cons:
  "fragments_of k (c # cs) =
     (if rank c = k then fragment c # fragments_of k cs else fragments_of k cs)"
  by (simp add: fragments_of_def)

lemma upd_slot_Cons: "upd_slot x (y # ys) = upd_slot y ys"
  by (cases ys) auto

lemma single_slot_upd: "single_slot xs = upd_slot [] xs"
  by (cases xs) auto

text \<open>The fields after a chain that returned, from the fields before it.\<close>

lemma chain_Returned_fields:
  assumes "chain s cs = (Returned, s')"
  shows "tags s' = upd_slot (tags s) (fragments_of 0 cs)
    \<and> ids s' = upd_slot (ids s) (fragments_of 1 cs)
    \<and> classes s' = classes s @ concat (fragments_of 2 cs)
    \<and> attrs s' = upd_slot (attrs s) (fragments_of 3 cs)
    \<and> pseudoClasses s' = pseudoClasses s @ concat (fragments_of 4 cs)
    \<and> pseudoElements s' = upd_slot (pseudoElements s) (fragments_of 5 cs)
    \<and> (combines s' = [] \<longrightarrow> combines s = [])"
  using assms
proof (induction cs arbitrary: s)
  case Nil
  then show ?case by (simp add: fragments_of_Nil)
next
  case (Cons c cs)
  from chain_Cons_Returned [OF Cons.prems] obtain s1
    where c: "invoke s c = (Returned, s1)" and rest: "chain s1 cs = (Returned, s')"
    by blast
  note f = invoke_Returned_fields [OF c]
  note ih = Cons.IH [OF rest]
  show ?case
    using ih f by (simp add: fragments_of_Cons upd_slot_Cons del: upd_slot.simps(2))
qed

lemma stringify_plain:
  "combines s = [] \<Longrightarrow>
   stringify s = tags s @ ids s @ classes s @ attrs s @ pseudoClasses s @ pseudoElements s"
  by (simp add: stringify_def truthy_def)

lemma chain_render:
  assumes "chain new_CreateElement cs = (Returned, s)" "combines s = []"
  shows "stringify s = spec_render cs"
proof -
  note f = chain_Returned_fields [OF assms(1)]
  show ?thesis
    unfolding stringify_plain [OF assms(2)] spec_render_def single_slot_upd
    using f by (simp only: fresh_fields append_Nil)
qed

lemma example_chain:
  \<open>chain new_CreateElement [Element ''a'', Attr ''href$=".png"'', PseudoClass ''focus'']
     = (Returned,
        \<lparr>tags = ''a'', ids = [], classes = [], attrs = ''[href$=".png"]'',
         pseudoClasses = '':focus'', pseudoElements = [], combines = []\<rparr>)\<close>
  by (simp add: method_defs checkFollowing_simps truthy_def new_CreateElement_def)

text \<open>
  C1. On an instance whose \<open>combines\<close> is unset, \<open>stringify()\<close> is the concatenation of
  the six fragment fields in the canonical order. When the instance was built from a new
  one by a chain of calls that all returned, this is the concatenation, in the canonical
  order, of the fragments the chain set, each with its punctuation (\<open>fragment\<close>): the tag,
  \<open>#\<close> and the id, \<open>.\<close> and each class, the attribute in brackets, \<open>:\<close> and each
  pseudo-class, \<open>::\<close> and the pseudo-element. In particular
  \<open>element('a').attr('href$=".png"').pseudoClass('focus')\<close> returns and renders as
  \<open>a[href$=".png"]:focus\<close>.
\<close>

theorem stringify_canonical:
  \<open>(combines s = [] \<longrightarrow>
      stringify s = tags s @ ids s @ classes s @ attrs s @ pseudoClasses s @ pseudoElements s)
   \<and> (chain new_CreateElement cs = (Returned, s) \<and> combines s = [] \<longrightarrow>
        stringify s = spec_render cs)
   \<and> fst (chain new_CreateElement [Element ''a'', Attr ''href$=".png"'', PseudoClass ''focus''])
       = Returned
   \<and> stringify
        (snd (chain new_CreateElement [Element ''a'', Attr ''href$=".png"'', PseudoClass ''focus'']))
       = ''a[href$=".png"]:focus''\<close>
proof -
  have \<open>stringify
          \<lparr>tags = ''a'', ids = [], classes = [], attrs = ''[href$=".png"]'',
           pseudoClasses = '':focus'', pseudoElements = [], combines = []\<rparr>
        = ''a[href$=".png"]:focus''\<close>
    by (simp add: stringify_def truthy_def)
  then show ?thesis
    by (simp only: example_chain fst_conv snd_conv simp_thms)
       (blast intro: stringify_plain chain_render)
qed

theorem stringify_canonical_witness:
  "chain new_CreateElement [Id ''main'', Class ''container'', Class ''editable'']
     = (Returned,
        \<lparr>tags = [], ids = ''#main'', classes = ''.container.editable'', attrs = [],
         pseudoClasses = [], pseudoElements = [], combines = []\<rparr>)
   \<and> spec_render [Id ''main'', Class ''container'', Class ''editable'']
       = ''#main.container.editable''
   \<and> stringify
        \<lparr>tags = [], ids = ''#main'', classes = ''.container.editable'', attrs = [],
         pseudoClasses = [], pseudoElements = [], combines = []\<rparr>
       = ''#main.container.editable''"
  using stringify_canonical
    [of "\<lparr>tags = [], ids = ''#main'', classes = ''.container.editable'', attrs = [],
          pseudoClasses = [], pseudoElements = [], combines = []\<rparr>"
        "[Id ''main'', Class ''container'', Class ''editable'']"]
  by (simp add: method_defs checkFollowing_simps truthy_def new_CreateElement_def
      spec_render_def fragments_of_def)

subsection \<open>Combination\<close>

lemma fst_combine: "fst (combine this a c b) = Returned"
  by (simp add: combine_def)

lemma stringify_combine:
  "stringify (snd (combine this a c b)) = stringify a @ '' '' @ c @ '' '' @ stringify b"
proof -
  have "combines (snd (combine this a c b)) = stringify a @ '' '' @ c @ '' '' @ stringify b"
    by (simp add: combine_def)
  moreover have "truthy (stringify a @ '' '' @ c @ '' '' @ stringify b)"
    by (rule truthy_combined)
  ultimately show ?thesis
    unfolding stringify_def [of "snd (combine this a c b)"] by (simp only: if_True)
qed

text \<open>
  C2. The facade's \<open>combine(a, c, b)\<close> returns, without throwing, a new instance whose
  \<open>stringify()\<close> is \<open>a.stringify() + ' ' + c + ' ' + b.stringify()\<close>, for all instances
  \<open>a\<close> and \<open>b\<close> (combined ones too) and every combinator string \<open>c\<close>; a nested
  combination therefore renders as the nested strings joined verbatim.
\<close>

theorem combine_stringify:
  "fst (builder_combine a c b) = Returned
   \<and> stringify (snd (builder_combine a c b)) = stringify a @ '' '' @ c @ '' '' @ stringify b
   \<and> stringify (snd (builder_combine a c (snd (builder_combine b d e))))
       = stringify a @ '' '' @ c @ '' '' @ (stringify b @ '' '' @ d @ '' '' @ stringify e)
   \<and> stringify (snd (builder_combine (snd (builder_combine a c b)) d e))
       = (stringify a @ '' '' @ c @ '' '' @ stringify b) @ '' '' @ d @ '' '' @ stringify e"
  by (simp add: builder_combine_def fst_combine stringify_combine)

text \<open>The nested combination of the source's documentation renders as documented.\<close>

lemma combine_example:
  "stringify (snd (builder_combine
      (snd (chain new_CreateElement
         [Element ''div'', Id ''main'', Class ''container'', Class ''draggable'']))
      ''+''
      (snd (builder_combine
         (snd (chain new_CreateElement [Element ''table'', Id ''data'']))
         ''~''
         (snd (builder_combine
            (snd (chain new_CreateElement [Element ''tr'', PseudoClass ''nth-of-type(even)'']))
            '' ''
            (snd (chain new_CreateElement [Element ''td'', PseudoClass ''nth-of-type(even)'']))))))))
   = ''div#main.container.draggable + table#data ~ tr:nth-of-type(even)   td:nth-of-type(even)''"
proof -
  note defs = method_defs checkFollowing_simps truthy_def new_CreateElement_def stringify_def
  have a: "stringify (snd (chain new_CreateElement
         [Element ''div'', Id ''main'', Class ''container'', Class ''draggable'']))
         = ''div#main.container.draggable''"
    by (simp add: defs)
  have b: "stringify (snd (chain new_CreateElement [Element ''table'', Id ''data'']))
      = ''table#data''"
    by (simp add: defs)
  have c: "stringify (snd (chain new_CreateElement [Element ''tr'', PseudoClass ''nth-of-type(even)'']))
      = ''tr:nth-of-type(even)''"
    by (simp add: defs)
  have d: "stringify (snd (chain new_CreateElement [Element ''td'', PseudoClass ''nth-of-type(even)'']))
      = ''td:nth-of-type(even)''"
    by (simp add: defs)
  show ?thesis
    unfolding builder_combine_def stringify_combine a b c d by simp
qed

subsection \<open>Ordering\<close>

lemma order_violation_cases:
  "fst (element s v) = Threw OrderViolation \<longleftrightarrow>
     \<not> truthy (tags s) \<and> (truthy (ids s) \<or> truthy (classes s) \<or> truthy (attrs s)
        \<or> truthy (pseudoClasses s) \<or> truthy (pseudoElements s))"
  "fst (id_method s v) = Threw OrderViolation \<longleftrightarrow>
     \<not> truthy (ids s) \<and> (truthy (classes s) \<or> truthy (attrs s)
        \<or> truthy (pseudoClasses s) \<or> truthy (pseudoElements s))"
  "fst (class_method s v) = Threw OrderViolation \<longleftrightarrow>
     truthy (attrs s) \<or> truthy (pseudoClasses s) \<or> truthy (pseudoElements s)"
  "fst (attr s v) = Threw OrderViolation \<longleftrightarrow>
     truthy (pseudoClasses s) \<or> truthy (pseudoElements s)"
  "fst (pseudoClass s v) = Threw OrderViolation \<longleftrightarrow> truthy (pseudoElements s)"
  using errors_distinct
  by (auto simp: method_defs checkFollowing_simps truthy_def)

lemma invoke_fresh: "rank c < 6 \<Longrightarrow> fst (invoke new_CreateElement c) = Returned"
  by (cases c) (auto simp: method_defs checkFollowing_simps truthy_def fresh_fields)

text \<open>After a call that returned, a call that moves forward returns too.\<close>

lemma forward_step:
  assumes "forward (c # d # cs)" "invoke s c = (Returned, s')"
  shows "fst (invoke s' d) = Returned"
  using assms
  by (cases c; cases d)
     (auto simp: method_defs checkFollowing_simps truthy_def repeatable_def split: if_splits)

lemma forward_tail: "forward (c # cs) \<Longrightarrow> forward cs"
  by (cases cs) auto

lemma forward_chain:
  "forward cs \<Longrightarrow> cs = [] \<or> fst (invoke s (hd cs)) = Returned \<Longrightarrow>
   fst (chain s cs) = Returned"
proof (induction cs arbitrary: s)
  case Nil
  then show ?case by simp
next
  case (Cons c cs)
  from Cons.prems(2) obtain s' where c: "invoke s c = (Returned, s')"
    by (cases "invoke s c") auto
  have "cs = [] \<or> fst (invoke s' (hd cs)) = Returned"
  proof (cases cs)
    case Nil
    then show ?thesis by simp
  next
    case (Cons d ds)
    with \<open>forward (c # cs)\<close> c forward_step [of c d ds s s'] show ?thesis
      by simp
  qed
  with Cons.IH [of s'] forward_tail [OF Cons.prems(1)] have "fst (chain s' cs) = Returned"
    by blast
  with c show ?case by simp
qed

lemma forward_fresh: "forward cs \<Longrightarrow> fst (chain new_CreateElement cs) = Returned"
proof (cases cs)
  case Nil
  then show ?thesis by simp
next
  case (Cons c ds)
  assume f: "forward cs"
  with Cons have "rank c < 6" by (cases ds) auto
  from invoke_fresh [OF this] forward_chain [OF f, of new_CreateElement] Cons show ?thesis
    by simp
qed

text \<open>
  C3. \<open>class\<close>, \<open>attr\<close> and \<open>pseudoClass\<close> throw the ordering error exactly when a
  fragment of a kind after theirs in the canonical order is non-empty; \<open>element\<close> and
  \<open>id\<close> do so exactly when, in addition, their own slot is empty (with the slot set
  they throw the uniqueness error instead, which is another error). No call that moves
  forward throws: a chain from a new instance in which every call is of a later kind than
  the one before (or repeats class, attribute or pseudo-class), whatever kinds it skips,
  returns.
\<close>

theorem order_violation_iff:
  "(fst (element s v) = Threw OrderViolation \<longleftrightarrow>
      \<not> truthy (tags s) \<and> (truthy (ids s) \<or> truthy (classes s) \<or> truthy (attrs s)
         \<or> truthy (pseudoClasses s) \<or> truthy (pseudoElements s)))
   \<and> (fst (id_method s v) = Threw OrderViolation \<longleftrightarrow>
      \<not> truthy (ids s) \<and> (truthy (classes s) \<or> truthy (attrs s)
         \<or> truthy (pseudoClasses s) \<or> truthy (pseudoElements s)))
   \<and> (fst (class_method s v) = Threw OrderViolation \<longleftrightarrow>
      truthy (attrs s) \<or> truthy (pseudoClasses s) \<or> truthy (pseudoElements s))
   \<and> (fst (attr s v) = Threw OrderViolation \<longleftrightarrow>
      truthy (pseudoClasses s) \<or> truthy (pseudoElements s))
   \<and> (fst (pseudoClass s v) = Threw OrderViolation \<longleftrightarrow> truthy (pseudoElements s))
   \<and> (truthy (tags s) \<longrightarrow> fst (element s v) = Threw DuplicateError)
   \<and> (truthy (ids s) \<longrightarrow> fst (id_method s v) = Threw DuplicateError)
   \<and> DuplicateError \<noteq> OrderViolation
   \<and> (forward cs \<longrightarrow> fst (chain new_CreateElement cs) = Returned)"
proof -
  have "truthy (tags s) \<longrightarrow> fst (element s v) = Threw DuplicateError"
    by (simp add: element_def)
  moreover have "truthy (ids s) \<longrightarrow> fst (id_method s v) = Threw DuplicateError"
    by (simp add: id_method_def)
  moreover have "forward cs \<longrightarrow> fst (chain new_CreateElement cs) = Returned"
    by (simp add: forward_fresh)
  ultimately show ?thesis
    using order_violation_cases [of s v] errors_distinct by blast
qed

theorem order_violation_iff_witness:
  "fst (class_method (snd (builder_attr ''href'')) ''c'') = Threw OrderViolation
   \<and> truthy (attrs (snd (builder_attr ''href'')))
   \<and> truthy (tags (snd (builder_element ''a'')))
   \<and> fst (element (snd (builder_element ''a'')) ''b'') = Threw DuplicateError
   \<and> truthy (ids (snd (builder_id ''a'')))
   \<and> fst (id_method (snd (builder_id ''a'')) ''b'') = Threw DuplicateError
   \<and> forward [Element ''a'', Attr ''href'', PseudoElement ''after'']
   \<and> fst (chain new_CreateElement [Element ''a'', Attr ''href'', PseudoElement ''after''])
       = Returned"
proof -
  have a: "snd (builder_attr ''href'') = new_CreateElement\<lparr>attrs := ''[href]''\<rparr>"
    by (simp add: builder_attr_def attr_def checkFollowing_simps fresh_fields)
  have b: "snd (builder_element ''a'') = new_CreateElement\<lparr>tags := ''a''\<rparr>"
    by (simp add: builder_element_def element_def checkFollowing_simps fresh_fields truthy_def)
  have c: "snd (builder_id ''a'') = new_CreateElement\<lparr>ids := ''#a''\<rparr>"
    by (simp add: builder_id_def id_method_def checkFollowing_simps fresh_fields truthy_def)
  have f: "forward [Element ''a'', Attr ''href'', PseudoElement ''after'']"
    by simp
  have ta: "truthy (attrs (snd (builder_attr ''href'')))"
    by (simp add: a truthy_def)
  have tb: "truthy (tags (snd (builder_element ''a'')))"
    by (simp add: b truthy_def)
  have tc: "truthy (ids (snd (builder_id ''a'')))"
    by (simp add: c truthy_def)
  from order_violation_iff [of "snd (builder_attr ''href'')" "''c''" "[]"] ta
  have 1: "fst (class_method (snd (builder_attr ''href'')) ''c'') = Threw OrderViolation"
    by blast
  from order_violation_iff [of "snd (builder_element ''a'')" "''b''" "[]"] tb
  have 2: "fst (element (snd (builder_element ''a'')) ''b'') = Threw DuplicateError"
    by blast
  from order_violation_iff [of "snd (builder_id ''a'')" "''b''" "[]"] tc
  have 3: "fst (id_method (snd (builder_id ''a'')) ''b'') = Threw DuplicateError"
    by blast
  from order_violation_iff
    [of new_CreateElement "[]" "[Element ''a'', Attr ''href'', PseudoElement ''after'']"] f
  have 4: "fst (chain new_CreateElement [Element ''a'', Attr ''href'', PseudoElement ''after''])
       = Returned"
    by blast
  from 1 2 3 4 ta tb tc f show ?thesis by blast
qed

subsection \<open>Uniqueness and accumulation\<close>

text \<open>A slot of \<open>element\<close>, \<open>id\<close> or \<open>pseudoElement\<close> that is set stays as it is.\<close>

lemma invoke_keeps_unique:
  assumes "invoke s c = (Returned, s')"
  shows "tags s \<noteq> [] \<Longrightarrow> tags s' = tags s"
    and "ids s \<noteq> [] \<Longrightarrow> ids s' = ids s"
    and "pseudoElements s \<noteq> [] \<Longrightarrow> pseudoElements s' = pseudoElements s"
  using assms by (cases c; auto simp: method_defs truthy_def split: if_splits)+

lemma chain_keeps_unique:
  assumes "chain s cs = (Returned, s')"
  shows "(tags s \<noteq> [] \<longrightarrow> tags s' = tags s)
    \<and> (ids s \<noteq> [] \<longrightarrow> ids s' = ids s)
    \<and> (pseudoElements s \<noteq> [] \<longrightarrow> pseudoElements s' = pseudoElements s)"
  using assms
proof (induction cs arbitrary: s)
  case Nil
  then show ?case by simp
next
  case (Cons c cs)
  from chain_Cons_Returned [OF Cons.prems] obtain s1
    where c: "invoke s c = (Returned, s1)" and rest: "chain s1 cs = (Returned, s')"
    by blast
  from invoke_keeps_unique [OF c] Cons.IH [OF rest] show ?case by auto
qed

lemma second_id:
  assumes "chain s (Id v # cs) = (Returned, s')"
  shows "id_method s' w = (Threw DuplicateError, s')"
proof -
  from chain_Cons_Returned [OF assms] obtain s1
    where a: "invoke s (Id v) = (Returned, s1)" and b: "chain s1 cs = (Returned, s')"
    by blast
  from invoke_Returned_fields(2) [OF a] have "ids s1 \<noteq> []" by simp
  with chain_keeps_unique [OF b] have "ids s' \<noteq> []" by simp
  then show ?thesis by (simp add: id_method_def truthy_def)
qed

lemma second_pseudoElement:
  assumes "chain s (PseudoElement v # cs) = (Returned, s')"
  shows "pseudoElement s' w = (Threw DuplicateError, s')"
proof -
  from chain_Cons_Returned [OF assms] obtain s1
    where a: "invoke s (PseudoElement v) = (Returned, s1)" and b: "chain s1 cs = (Returned, s')"
    by blast
  from invoke_Returned_fields(6) [OF a] have "pseudoElements s1 \<noteq> []" by simp
  with chain_keeps_unique [OF b] have "pseudoElements s' \<noteq> []" by simp
  then show ?thesis by (simp add: pseudoElement_def truthy_def)
qed

lemma second_element:
  assumes "chain s (Element v # cs) = (Returned, s')" "v \<noteq> []"
  shows "element s' w = (Threw DuplicateError, s')"
proof -
  from chain_Cons_Returned [OF assms(1)] obtain s1
    where a: "invoke s (Element v) = (Returned, s1)" and b: "chain s1 cs = (Returned, s')"
    by blast
  from invoke_Returned_fields(1) [OF a] assms(2) have "tags s1 \<noteq> []" by simp
  with chain_keeps_unique [OF b] have "tags s' \<noteq> []" by simp
  then show ?thesis by (simp add: element_def truthy_def)
qed

lemma classes_accumulate:
  "checkFollowing s ''class'' \<Longrightarrow>
   chain s (map Class vs)
     = (Returned, s\<lparr>classes := classes s @ concat (map (\<lambda>name. ''.'' @ name) vs)\<rparr>)"
proof (induction vs arbitrary: s)
  case Nil
  then show ?case by simp
next
  case (Cons v vs)
  let ?s1 = "s\<lparr>classes := classes s @ ''.'' @ v\<rparr>"
  from Cons.prems have a: "invoke s (Class v) = (Returned, ?s1)"
    by (simp add: class_method_def)
  from Cons.prems have "checkFollowing ?s1 ''class''"
    by (simp add: checkFollowing_simps)
  from Cons.IH [OF this] a show ?case by simp
qed

lemma pseudoClasses_accumulate:
  "checkFollowing s ''pseudoClass'' \<Longrightarrow>
   chain s (map PseudoClass vs)
     = (Returned, s\<lparr>pseudoClasses := pseudoClasses s @ concat (map (\<lambda>name. '':'' @ name) vs)\<rparr>)"
proof (induction vs arbitrary: s)
  case Nil
  then show ?case by simp
next
  case (Cons v vs)
  let ?s1 = "s\<lparr>pseudoClasses := pseudoClasses s @ '':'' @ v\<rparr>"
  from Cons.prems have a: "invoke s (PseudoClass v) = (Returned, ?s1)"
    by (simp add: pseudoClass_def)
  from Cons.prems have "checkFollowing ?s1 ''pseudoClass''"
    by (simp add: checkFollowing_simps)
  from Cons.IH [OF this] a show ?case by simp
qed

text \<open>
  C4. \<open>element\<close>, \<open>id\<close> and \<open>pseudoElement\<close> throw the uniqueness error, and leave
  the instance as it is, whenever their fragment is already set (the slot is non-empty).
  So a second \<open>id\<close> or \<open>pseudoElement\<close> call on an instance throws it, whatever calls
  returned in between, and so does a second \<open>element\<close> call after one with a non-empty
  name. \<open>class\<close> and \<open>pseudoClass\<close> have no such limit: on an instance with no
  fragment of a later kind (no pseudo-element, for \<open>pseudoClass\<close>), and so on every new
  instance, any number of calls in a row return, and their fragments accumulate in call
  order behind the ones already there.
\<close>

theorem duplicate_error:
  "(truthy (tags s) \<longrightarrow> element s w = (Threw DuplicateError, s))
   \<and> (truthy (ids s) \<longrightarrow> id_method s w = (Threw DuplicateError, s))
   \<and> (truthy (pseudoElements s) \<longrightarrow> pseudoElement s w = (Threw DuplicateError, s))
   \<and> (v \<noteq> [] \<and> chain s0 (Element v # cs) = (Returned, s) \<longrightarrow>
        fst (element s w) = Threw DuplicateError)
   \<and> (chain s0 (Id v # cs) = (Returned, s) \<longrightarrow> fst (id_method s w) = Threw DuplicateError)
   \<and> (chain s0 (PseudoElement v # cs) = (Returned, s) \<longrightarrow>
        fst (pseudoElement s w) = Threw DuplicateError)
   \<and> fst (chain new_CreateElement [Id v, Id w]) = Threw DuplicateError
   \<and> fst (chain new_CreateElement [PseudoElement v, PseudoElement w]) = Threw DuplicateError
   \<and> (v \<noteq> [] \<longrightarrow> fst (chain new_CreateElement [Element v, Element w]) = Threw DuplicateError)
   \<and> (\<not> truthy (attrs s) \<and> \<not> truthy (pseudoClasses s) \<and> \<not> truthy (pseudoElements s) \<longrightarrow>
        chain s (map Class vs)
          = (Returned, s\<lparr>classes := classes s @ concat (map (\<lambda>name. ''.'' @ name) vs)\<rparr>))
   \<and> (\<not> truthy (pseudoElements s) \<longrightarrow>
        chain s (map PseudoClass vs)
          = (Returned,
             s\<lparr>pseudoClasses := pseudoClasses s @ concat (map (\<lambda>name. '':'' @ name) vs)\<rparr>))
   \<and> chain new_CreateElement (map Class vs)
       = (Returned, new_CreateElement\<lparr>classes := concat (map (\<lambda>name. ''.'' @ name) vs)\<rparr>)
   \<and> chain new_CreateElement (map PseudoClass vs)
       = (Returned, new_CreateElement\<lparr>pseudoClasses := concat (map (\<lambda>name. '':'' @ name) vs)\<rparr>)"
proof -
  have 1: "truthy (tags s) \<longrightarrow> element s w = (Threw DuplicateError, s)"
    by (simp add: element_def)
  have 2: "truthy (ids s) \<longrightarrow> id_method s w = (Threw DuplicateError, s)"
    by (simp add: id_method_def)
  have 3: "truthy (pseudoElements s) \<longrightarrow> pseudoElement s w = (Threw DuplicateError, s)"
    by (simp add: pseudoElement_def)
  have 4: "v \<noteq> [] \<and> chain s0 (Element v # cs) = (Returned, s) \<longrightarrow>
        fst (element s w) = Threw DuplicateError"
    using second_element [of s0 v cs s w] by auto
  have 5: "chain s0 (Id v # cs) = (Returned, s) \<longrightarrow> fst (id_method s w) = Threw DuplicateError"
    using second_id [of s0 v cs s w] by auto
  have 6: "chain s0 (PseudoElement v # cs) = (Returned, s) \<longrightarrow>
        fst (pseudoElement s w) = Threw DuplicateError"
    using second_pseudoElement [of s0 v cs s w] by auto
  have 7: "fst (chain new_CreateElement [Id v, Id w]) = Threw DuplicateError"
    by (simp add: id_method_def checkFollowing_simps truthy_def fresh_fields)
  have 8: "fst (chain new_CreateElement [PseudoElement v, PseudoElement w]) = Threw DuplicateError"
    by (simp add: pseudoElement_def truthy_def fresh_fields)
  have 9: "v \<noteq> [] \<longrightarrow> fst (chain new_CreateElement [Element v, Element w]) = Threw DuplicateError"
    by (simp add: element_def checkFollowing_simps truthy_def fresh_fields)
  have 10: "\<not> truthy (attrs s) \<and> \<not> truthy (pseudoClasses s) \<and> \<not> truthy (pseudoElements s) \<longrightarrow>
        chain s (map Class vs)
          = (Returned, s\<lparr>classes := classes s @ concat (map (\<lambda>name. ''.'' @ name) vs)\<rparr>)"
  proof
    assume "\<not> truthy (attrs s) \<and> \<not> truthy (pseudoClasses s) \<and> \<not> truthy (pseudoElements s)"
    then have "checkFollowing s ''class''"
      by (simp add: checkFollowing_simps truthy_def)
    then show "chain s (map Class vs)
          = (Returned, s\<lparr>classes := classes s @ concat (map (\<lambda>name. ''.'' @ name) vs)\<rparr>)"
      by (rule classes_accumulate)
  qed
  have 11: "\<not> truthy (pseudoElements s) \<longrightarrow>
        chain s (map PseudoClass vs)
          = (Returned,
             s\<lparr>pseudoClasses := pseudoClasses s @ concat (map (\<lambda>name. '':'' @ name) vs)\<rparr>)"
  proof
    assume "\<not> truthy (pseudoElements s)"
    then have "checkFollowing s ''pseudoClass''"
      by (simp add: checkFollowing_simps truthy_def)
    then show "chain s (map PseudoClass vs)
          = (Returned,
             s\<lparr>pseudoClasses := pseudoClasses s @ concat (map (\<lambda>name. '':'' @ name) vs)\<rparr>)"
      by (rule pseudoClasses_accumulate)
  qed
  have "checkFollowing new_CreateElement ''class''"
    by (simp add: checkFollowing_simps fresh_fields)
  from classes_accumulate [OF this, of vs]
  have 12: "chain new_CreateElement (map Class vs)
       = (Returned, new_CreateElement\<lparr>classes := concat (map (\<lambda>name. ''.'' @ name) vs)\<rparr>)"
    by (simp add: fresh_fields)
  have "checkFollowing new_CreateElement ''pseudoClass''"
    by (simp add: checkFollowing_simps fresh_fields)
  from pseudoClasses_accumulate [OF this, of vs]
  have 13: "chain new_CreateElement (map PseudoClass vs)
       = (Returned, new_CreateElement\<lparr>pseudoClasses := concat (map (\<lambda>name. '':'' @ name) vs)\<rparr>)"
    by (simp add: fresh_fields)
  from 1 2 3 4 5 6 7 8 9 10 11 12 13 show ?thesis by blast
qed

theorem duplicate_error_witness:
  "chain new_CreateElement [Id ''main'', Class ''container'']
     = (Returned, new_CreateElement\<lparr>ids := ''#main'', classes := ''.container''\<rparr>)
   \<and> truthy (ids (new_CreateElement\<lparr>ids := ''#main'', classes := ''.container''\<rparr>))
   \<and> id_method (new_CreateElement\<lparr>ids := ''#main'', classes := ''.container''\<rparr>) ''other''
       = (Threw DuplicateError, new_CreateElement\<lparr>ids := ''#main'', classes := ''.container''\<rparr>)
   \<and> fst (id_method (new_CreateElement\<lparr>ids := ''#main'', classes := ''.container''\<rparr>) ''other'')
       = Threw DuplicateError
   \<and> chain (new_CreateElement\<lparr>ids := ''#main'', classes := ''.container''\<rparr>)
        (map Class [''a'', ''b'', ''c''])
       = (Returned, new_CreateElement\<lparr>ids := ''#main'', classes := ''.container.a.b.c''\<rparr>)
   \<and> chain (new_CreateElement\<lparr>ids := ''#main'', classes := ''.container''\<rparr>)
        (map PseudoClass [''hover'', ''focus''])
       = (Returned,
          new_CreateElement\<lparr>ids := ''#main'', classes := ''.container'',
            pseudoClasses := '':hover:focus''\<rparr>)
   \<and> truthy (pseudoElements (new_CreateElement\<lparr>tags := ''p'', pseudoElements := ''::after''\<rparr>))
   \<and> pseudoElement (new_CreateElement\<lparr>tags := ''p'', pseudoElements := ''::after''\<rparr>) ''before''
       = (Threw DuplicateError, new_CreateElement\<lparr>tags := ''p'', pseudoElements := ''::after''\<rparr>)
   \<and> element (new_CreateElement\<lparr>tags := ''p'', pseudoElements := ''::after''\<rparr>) ''div''
       = (Threw DuplicateError, new_CreateElement\<lparr>tags := ''p'', pseudoElements := ''::after''\<rparr>)
   \<and> chain new_CreateElement [Element ''p'', PseudoElement ''after'']
       = (Returned, new_CreateElement\<lparr>tags := ''p'', pseudoElements := ''::after''\<rparr>)
   \<and> fst (pseudoElement (new_CreateElement\<lparr>tags := ''p'', pseudoElements := ''::after''\<rparr>) ''before'')
       = Threw DuplicateError
   \<and> fst (element (new_CreateElement\<lparr>tags := ''p'', pseudoElements := ''::after''\<rparr>) ''div'')
       = Threw DuplicateError"
proof -
  let ?s = "new_CreateElement\<lparr>ids := ''#main'', classes := ''.container''\<rparr>"
  let ?u = "new_CreateElement\<lparr>tags := ''p'', pseudoElements := ''::after''\<rparr>"
  have c: "chain new_CreateElement [Id ''main'', Class ''container''] = (Returned, ?s)"
    by (simp add: method_defs checkFollowing_simps truthy_def fresh_fields)
  have t: "truthy (ids ?s)"
    by (simp add: truthy_def)
  have e: "\<not> truthy (attrs ?s)" "\<not> truthy (pseudoClasses ?s)" "\<not> truthy (pseudoElements ?s)"
    by (simp_all add: truthy_def fresh_fields)
  have cu: "chain new_CreateElement (Element ''p'' # [PseudoElement ''after'']) = (Returned, ?u)"
    by (simp add: method_defs checkFollowing_simps truthy_def fresh_fields)
  have tu: "truthy (tags ?u)" "truthy (pseudoElements ?u)"
    by (simp_all add: truthy_def)
  have ne: "''p'' \<noteq> []"
    by simp
  note d = duplicate_error
    [where s = ?s and w = "''other''" and s0 = new_CreateElement and v = "''main''"
       and cs = "[Class ''container'']"]
  from d t have 1: "id_method ?s ''other'' = (Threw DuplicateError, ?s)"
    by blast
  from d c have 2: "fst (id_method ?s ''other'') = Threw DuplicateError"
    by blast
  note d3 = duplicate_error [where s = ?s and vs = "[''a'', ''b'', ''c'']"]
  from d3 e have "chain ?s (map Class [''a'', ''b'', ''c''])
       = (Returned,
          ?s\<lparr>classes := classes ?s @ concat (map (\<lambda>name. ''.'' @ name) [''a'', ''b'', ''c''])\<rparr>)"
    by blast
  then have 3: "chain ?s (map Class [''a'', ''b'', ''c''])
       = (Returned, new_CreateElement\<lparr>ids := ''#main'', classes := ''.container.a.b.c''\<rparr>)"
    by simp
  note d4 = duplicate_error [where s = ?s and vs = "[''hover'', ''focus'']"]
  from d4 e(3) have "chain ?s (map PseudoClass [''hover'', ''focus''])
       = (Returned,
          ?s\<lparr>pseudoClasses :=
               pseudoClasses ?s @ concat (map (\<lambda>name. '':'' @ name) [''hover'', ''focus''])\<rparr>)"
    by blast
  then have 4: "chain ?s (map PseudoClass [''hover'', ''focus''])
       = (Returned,
          new_CreateElement\<lparr>ids := ''#main'', classes := ''.container'',
            pseudoClasses := '':hover:focus''\<rparr>)"
    by (simp add: fresh_fields)
  note d5 = duplicate_error
    [where s = ?u and w = "''before''" and s0 = new_CreateElement and v = "''p''"
       and cs = "[PseudoElement ''after'']"]
  from d5 tu(2) have 5: "pseudoElement ?u ''before'' = (Threw DuplicateError, ?u)"
    by blast
  note d6 = duplicate_error
    [where s = ?u and w = "''div''" and s0 = new_CreateElement and v = "''p''"
       and cs = "[PseudoElement ''after'']"]
  from d6 tu(1) have 6: "element ?u ''div'' = (Threw DuplicateError, ?u)"
    by blast
  from d6 ne cu have 7: "fst (element ?u ''div'') = Threw DuplicateError"
    by blast
  note d8 = duplicate_error
    [where s = ?u and w = "''before''" and s0 = "new_CreateElement\<lparr>tags := ''p''\<rparr>"
       and v = "''after''" and cs = "[]"]
  have cp: "chain (new_CreateElement\<lparr>tags := ''p''\<rparr>) (PseudoElement ''after'' # []) = (Returned, ?u)"
    by (simp add: method_defs truthy_def fresh_fields)
  from d8 cp have 8: "fst (pseudoElement ?u ''before'') = Threw DuplicateError"
    by blast
  from cu have cu2: "chain new_CreateElement [Element ''p'', PseudoElement ''after''] = (Returned, ?u)"
    by simp
  from c t 1 2 3 4 tu(2) 5 6 cu2 8 7 show ?thesis
    by blast
qed

subsection \<open>Failed calls\<close>

lemma invoke_errors:
  "fst (invoke s c) = Returned \<or> fst (invoke s c) = Threw DuplicateError
   \<or> fst (invoke s c) = Threw OrderViolation"
  by (cases c) (auto simp: method_defs)

text \<open>
  C5. A call that throws leaves every field of the instance as it was before the call,
  whatever method it is; the only errors are the uniqueness and the ordering error. The
  error propagates: a chain whose calls returned up to an instance on which the next call
  throws ends with that error, on that instance, and makes none of the later calls.
\<close>

theorem failed_call_atomic:
  "(fst (invoke s c) \<noteq> Returned \<longrightarrow> snd (invoke s c) = s)
   \<and> (fst (invoke s c) = Returned \<or> fst (invoke s c) = Threw DuplicateError
        \<or> fst (invoke s c) = Threw OrderViolation)
   \<and> (chain s0 cs = (Returned, s) \<and> fst (invoke s c) = Threw e \<longrightarrow>
        chain s0 (cs @ c # ds) = (Threw e, s))"
proof -
  have "chain s0 (cs @ c # ds) = (Threw e, s)"
    if a: "chain s0 cs = (Returned, s)" and b: "fst (invoke s c) = Threw e"
  proof -
    from b have "snd (invoke s c) = s"
      by (simp add: invoke_failed_same)
    with b have "invoke s c = (Threw e, s)"
      by (cases "invoke s c") simp
    then have "chain s (c # ds) = (Threw e, s)"
      by simp
    with chain_append [OF a, of "c # ds"] show ?thesis
      by simp
  qed
  with invoke_failed_same [of s c] invoke_errors [of s c] show ?thesis
    by blast
qed

theorem failed_call_atomic_witness:
  "chain new_CreateElement [Element ''a'', Attr ''href'']
     = (Returned, new_CreateElement\<lparr>tags := ''a'', attrs := ''[href]''\<rparr>)
   \<and> fst (invoke (new_CreateElement\<lparr>tags := ''a'', attrs := ''[href]''\<rparr>) (Class ''c''))
       = Threw OrderViolation
   \<and> snd (invoke (new_CreateElement\<lparr>tags := ''a'', attrs := ''[href]''\<rparr>) (Class ''c''))
       = new_CreateElement\<lparr>tags := ''a'', attrs := ''[href]''\<rparr>
   \<and> chain new_CreateElement [Element ''a'', Attr ''href'', Class ''c'', PseudoClass ''focus'']
       = (Threw OrderViolation, new_CreateElement\<lparr>tags := ''a'', attrs := ''[href]''\<rparr>)"
proof -
  let ?s = "new_CreateElement\<lparr>tags := ''a'', attrs := ''[href]''\<rparr>"
  have c: "chain new_CreateElement [Element ''a'', Attr ''href''] = (Returned, ?s)"
    by (simp add: method_defs checkFollowing_simps truthy_def fresh_fields)
  have t: "fst (invoke ?s (Class ''c'')) = Threw OrderViolation"
    by (simp add: class_method_def checkFollowing_simps)
  then have n: "fst (invoke ?s (Class ''c'')) \<noteq> Returned"
    by simp
  note f = failed_call_atomic
    [of ?s "Class ''c''" new_CreateElement "[Element ''a'', Attr ''href'']" OrderViolation
        "[PseudoClass ''focus'']"]
  from f n have 1: "snd (invoke ?s (Class ''c'')) = ?s"
    by blast
  from f c t have "chain new_CreateElement
      ([Element ''a'', Attr ''href''] @ Class ''c'' # [PseudoClass ''focus''])
       = (Threw OrderViolation, ?s)"
    by blast
  then have 2: "chain new_CreateElement
      [Element ''a'', Attr ''href'', Class ''c'', PseudoClass ''focus'']
       = (Threw OrderViolation, ?s)"
    by simp
  from c t 1 2 show ?thesis by blast
qed

subsection \<open>The attribute slot\<close>

text \<open>
  C6. On an instance with no pseudo-class and no pseudo-element fragment, \<open>attr\<close>
  returns, and so does a second \<open>attr\<close> call, which overwrites the slot: the instance
  after \<open>attr(x).attr(y)\<close> is the instance after \<open>attr(y)\<close> alone, with the attribute
  fragment \<open>[y]\<close> and nothing left of \<open>x\<close>, and renders the same.
\<close>

theorem attr_overwrites:
  "\<not> truthy (pseudoClasses s) \<and> \<not> truthy (pseudoElements s) \<longrightarrow>
     fst (attr s x) = Returned
     \<and> attr (snd (attr s x)) y = (Returned, s\<lparr>attrs := ''['' @ y @ '']''\<rparr>)
     \<and> attr (snd (attr s x)) y = attr s y
     \<and> stringify (snd (attr (snd (attr s x)) y)) = stringify (snd (attr s y))"
  by (simp add: attr_def checkFollowing_simps truthy_def)

theorem attr_overwrites_witness:
  "\<not> truthy (pseudoClasses (snd (builder_element ''a'')))
   \<and> \<not> truthy (pseudoElements (snd (builder_element ''a'')))
   \<and> attr (snd (attr (snd (builder_element ''a'')) ''href'')) ''title''
       = (Returned, new_CreateElement\<lparr>tags := ''a'', attrs := ''[title]''\<rparr>)
   \<and> stringify (snd (attr (snd (attr (snd (builder_element ''a'')) ''href'')) ''title''))
       = ''a[title]''"
proof -
  have b: "snd (builder_element ''a'') = new_CreateElement\<lparr>tags := ''a''\<rparr>"
    by (simp add: builder_element_def element_def checkFollowing_simps fresh_fields truthy_def)
  have h: "\<not> truthy (pseudoClasses (snd (builder_element ''a'')))
      \<and> \<not> truthy (pseudoElements (snd (builder_element ''a'')))"
    by (simp add: b truthy_def fresh_fields)
  from attr_overwrites [of "snd (builder_element ''a'')" "''href''" "''title''"] h
  have 1: "attr (snd (attr (snd (builder_element ''a'')) ''href'')) ''title''
       = (Returned, (snd (builder_element ''a''))\<lparr>attrs := ''['' @ ''title'' @ '']''\<rparr>)"
    by blast
  have 2: "stringify (new_CreateElement\<lparr>tags := ''a'', attrs := ''[title]''\<rparr>) = ''a[title]''"
    by (simp add: stringify_def truthy_def new_CreateElement_def)
  from 1 2 h show ?thesis
    by (simp add: b)
qed

subsection \<open>The empty element name\<close>

text \<open>
  C8. \<open>element('')\<close> on a new instance returns and leaves the tag slot empty, which is
  how an unset slot compares; a following \<open>element(x)\<close> therefore returns, without the
  uniqueness error, and the instance is the one \<open>element(x)\<close> alone builds: it renders
  as \<open>x\<close>, with no trace of the empty tag.
\<close>

theorem empty_element_not_duplicate:
  "builder_element [] = (Returned, new_CreateElement)
   \<and> \<not> truthy (tags (snd (builder_element [])))
   \<and> element (snd (builder_element [])) x = (Returned, new_CreateElement\<lparr>tags := x\<rparr>)
   \<and> element (snd (builder_element [])) x = builder_element x
   \<and> chain new_CreateElement [Element [], Element x] = (Returned, new_CreateElement\<lparr>tags := x\<rparr>)
   \<and> stringify (snd (element (snd (builder_element [])) x)) = x"
proof -
  have a: "builder_element [] = (Returned, new_CreateElement)"
    by (simp add: builder_element_def element_def checkFollowing_simps truthy_def
        new_CreateElement_def)
  have b: "element new_CreateElement x = (Returned, new_CreateElement\<lparr>tags := x\<rparr>)"
    by (simp add: element_def checkFollowing_simps truthy_def fresh_fields)
  have c: "stringify (new_CreateElement\<lparr>tags := x\<rparr>) = x"
    by (simp add: stringify_def truthy_def new_CreateElement_def)
  from a b c show ?thesis
    by (simp add: builder_element_def truthy_def fresh_fields)
qed

theorem empty_element_not_duplicate_witness:
  "chain new_CreateElement [Element [], Element ''div'']
     = (Returned, new_CreateElement\<lparr>tags := ''div''\<rparr>)
   \<and> stringify (snd (element (snd (builder_element [])) ''div'')) = ''div''"
  using empty_element_not_duplicate [of "''div''"] by blast

subsection \<open>Instances that hold a combination\<close>

lemma invoke_combines_update:
  "rank c < 6 \<Longrightarrow>
   invoke (s\<lparr>combines := x\<rparr>) c = (fst (invoke s c), (snd (invoke s c))\<lparr>combines := x\<rparr>)"
  by (cases c) (auto simp: method_defs checkFollowing_def)

lemma invoke_keeps_combines: "rank c < 6 \<Longrightarrow> combines (snd (invoke s c)) = combines s"
  by (cases c) (auto simp: method_defs)

lemma chain_keeps_combines:
  "\<forall>c \<in> set cs. rank c < 6 \<Longrightarrow> combines (snd (chain s cs)) = combines s"
proof (induction cs arbitrary: s)
  case Nil
  then show ?case by simp
next
  case (Cons c cs)
  then have r: "rank c < 6" and rs: "\<forall>c \<in> set cs. rank c < 6"
    by simp_all
  show ?case
  proof (cases "invoke s c")
    case (Pair out s1)
    with invoke_keeps_combines [OF r, of s] have k: "combines s1 = combines s"
      by simp
    show ?thesis
    proof (cases out)
      case Returned
      with Pair Cons.IH [OF rs, of s1] k show ?thesis by simp
    next
      case (Threw e)
      with Pair k show ?thesis by simp
    qed
  qed
qed

lemma stringify_combined: "truthy (combines s) \<Longrightarrow> stringify s = combines s"
  by (simp add: stringify_def)

lemma fresh_combination:
  "snd (builder_combine a k b)
     = new_CreateElement\<lparr>combines := stringify a @ '' '' @ k @ '' '' @ stringify b\<rparr>"
  by (simp add: builder_combine_def combine_def)

text \<open>
  C10, as the code has it. The ordering check of a fragment method does not look at
  \<open>combines\<close>, so on an instance that holds a combination a fragment method throws
  exactly when it throws on the same fragment fields without the combination, and
  changes the fields the same way. \<open>class\<close> and \<open>pseudoClass\<close> therefore return and
  append their fragment when no fragment of a later kind is set, as on the instance the
  facade's \<open>combine\<close> has just built; when one is set they throw the ordering error and
  leave the instance as it is. Through any chain of fragment calls, throwing or not,
  \<open>stringify()\<close> stays the combined string.
\<close>

theorem combined_instance_fragments:
  "(rank c < 6 \<longrightarrow>
      invoke (s\<lparr>combines := x\<rparr>) c = (fst (invoke s c), (snd (invoke s c))\<lparr>combines := x\<rparr>))
   \<and> (truthy (combines s) \<and> (\<forall>c \<in> set cs. rank c < 6) \<longrightarrow>
        stringify s = combines s \<and> stringify (snd (chain s cs)) = combines s)
   \<and> (truthy (combines s) \<and> \<not> truthy (attrs s) \<and> \<not> truthy (pseudoClasses s)
        \<and> \<not> truthy (pseudoElements s) \<longrightarrow>
        class_method s v = (Returned, s\<lparr>classes := classes s @ ''.'' @ v\<rparr>))
   \<and> (truthy (combines s) \<and> \<not> truthy (pseudoElements s) \<longrightarrow>
        pseudoClass s v = (Returned, s\<lparr>pseudoClasses := pseudoClasses s @ '':'' @ v\<rparr>))
   \<and> (truthy (combines s)
        \<and> (truthy (attrs s) \<or> truthy (pseudoClasses s) \<or> truthy (pseudoElements s)) \<longrightarrow>
        class_method s v = (Threw OrderViolation, s))
   \<and> (truthy (combines s) \<and> truthy (pseudoElements s) \<longrightarrow>
        pseudoClass s v = (Threw OrderViolation, s))
   \<and> class_method (snd (builder_combine a k b)) v
       = (Returned, (snd (builder_combine a k b))\<lparr>classes := ''.'' @ v\<rparr>)
   \<and> pseudoClass (snd (builder_combine a k b)) v
       = (Returned, (snd (builder_combine a k b))\<lparr>pseudoClasses := '':'' @ v\<rparr>)"
proof -
  have 1: "rank c < 6 \<longrightarrow>
      invoke (s\<lparr>combines := x\<rparr>) c = (fst (invoke s c), (snd (invoke s c))\<lparr>combines := x\<rparr>)"
    by (simp add: invoke_combines_update)
  have 2: "truthy (combines s) \<and> (\<forall>c \<in> set cs. rank c < 6) \<longrightarrow>
        stringify s = combines s \<and> stringify (snd (chain s cs)) = combines s"
  proof
    assume h: "truthy (combines s) \<and> (\<forall>c \<in> set cs. rank c < 6)"
    then have k: "combines (snd (chain s cs)) = combines s"
      by (simp add: chain_keeps_combines)
    with h have "truthy (combines (snd (chain s cs)))"
      by simp
    from stringify_combined [OF this] k h
    show "stringify s = combines s \<and> stringify (snd (chain s cs)) = combines s"
      by (simp add: stringify_combined)
  qed
  have 3: "truthy (combines s) \<and> \<not> truthy (attrs s) \<and> \<not> truthy (pseudoClasses s)
        \<and> \<not> truthy (pseudoElements s) \<longrightarrow>
        class_method s v = (Returned, s\<lparr>classes := classes s @ ''.'' @ v\<rparr>)"
    by (simp add: class_method_def checkFollowing_simps truthy_def)
  have 4: "truthy (combines s) \<and> \<not> truthy (pseudoElements s) \<longrightarrow>
        pseudoClass s v = (Returned, s\<lparr>pseudoClasses := pseudoClasses s @ '':'' @ v\<rparr>)"
    by (simp add: pseudoClass_def checkFollowing_simps truthy_def)
  have 5: "truthy (combines s)
        \<and> (truthy (attrs s) \<or> truthy (pseudoClasses s) \<or> truthy (pseudoElements s)) \<longrightarrow>
        class_method s v = (Threw OrderViolation, s)"
    by (auto simp add: class_method_def checkFollowing_simps truthy_def)
  have 6: "truthy (combines s) \<and> truthy (pseudoElements s) \<longrightarrow>
        pseudoClass s v = (Threw OrderViolation, s)"
    by (simp add: pseudoClass_def checkFollowing_simps truthy_def)
  have 7: "class_method (snd (builder_combine a k b)) v
       = (Returned, (snd (builder_combine a k b))\<lparr>classes := ''.'' @ v\<rparr>)"
    unfolding fresh_combination
    by (simp add: class_method_def checkFollowing_simps fresh_fields)
  have 8: "pseudoClass (snd (builder_combine a k b)) v
       = (Returned, (snd (builder_combine a k b))\<lparr>pseudoClasses := '':'' @ v\<rparr>)"
    unfolding fresh_combination
    by (simp add: pseudoClass_def checkFollowing_simps fresh_fields)
  from 1 2 3 4 5 6 7 8 show ?thesis by blast
qed

text \<open>
  The instance \<open>combine(element('a'), '+', element('b'))\<close> of the facade, then
  \<open>pseudoClass('hover')\<close>, which returns: it holds the combination, and
  \<open>class('c')\<close> on it throws the ordering error.
\<close>

theorem combined_class_after_pseudoClass_throws:
  "fst (pseudoClass (snd (builder_combine (snd (builder_element ''a'')) ''+''
          (snd (builder_element ''b'')))) ''hover'') = Returned
   \<and> truthy (combines (snd (pseudoClass (snd (builder_combine (snd (builder_element ''a'')) ''+''
          (snd (builder_element ''b'')))) ''hover'')))
   \<and> fst (class_method (snd (pseudoClass (snd (builder_combine (snd (builder_element ''a'')) ''+''
          (snd (builder_element ''b'')))) ''hover'')) ''c'') = Threw OrderViolation"
proof -
  have p: "pseudoClass (snd (builder_combine (snd (builder_element ''a'')) ''+''
          (snd (builder_element ''b'')))) ''hover''
      = (Returned, new_CreateElement\<lparr>pseudoClasses := '':hover'', combines := ''a + b''\<rparr>)"
    by (simp add: builder_defs method_defs checkFollowing_simps truthy_def stringify_def
        new_CreateElement_def)
  show ?thesis
    unfolding p by (simp add: class_method_def checkFollowing_simps truthy_def)
qed

theorem combined_instance_fragments_witness:
  "truthy (combines (new_CreateElement\<lparr>combines := ''a + b''\<rparr>))
   \<and> stringify (snd (chain (new_CreateElement\<lparr>combines := ''a + b''\<rparr>)
        [Class ''c'', PseudoClass ''hover'', Class ''d''])) = ''a + b''
   \<and> class_method (new_CreateElement\<lparr>combines := ''a + b''\<rparr>) ''c''
       = (Returned, new_CreateElement\<lparr>classes := ''.c'', combines := ''a + b''\<rparr>)
   \<and> pseudoClass (new_CreateElement\<lparr>combines := ''a + b''\<rparr>) ''hover''
       = (Returned, new_CreateElement\<lparr>pseudoClasses := '':hover'', combines := ''a + b''\<rparr>)
   \<and> invoke (new_CreateElement\<lparr>combines := ''a + b''\<rparr>) (Id ''main'')
       = (Returned, new_CreateElement\<lparr>ids := ''#main'', combines := ''a + b''\<rparr>)
   \<and> truthy (attrs (new_CreateElement\<lparr>attrs := ''[href]'', combines := ''a + b''\<rparr>))
   \<and> class_method (new_CreateElement\<lparr>attrs := ''[href]'', combines := ''a + b''\<rparr>) ''c''
       = (Threw OrderViolation, new_CreateElement\<lparr>attrs := ''[href]'', combines := ''a + b''\<rparr>)
   \<and> truthy (pseudoElements
        (new_CreateElement\<lparr>pseudoElements := ''::after'', combines := ''a + b''\<rparr>))
   \<and> pseudoClass (new_CreateElement\<lparr>pseudoElements := ''::after'', combines := ''a + b''\<rparr>)
        ''hover''
       = (Threw OrderViolation,
          new_CreateElement\<lparr>pseudoElements := ''::after'', combines := ''a + b''\<rparr>)"
proof -
  let ?s = "new_CreateElement\<lparr>combines := ''a + b''\<rparr>"
  let ?t = "new_CreateElement\<lparr>attrs := ''[href]'', combines := ''a + b''\<rparr>"
  let ?u = "new_CreateElement\<lparr>pseudoElements := ''::after'', combines := ''a + b''\<rparr>"
  have tt: "truthy (combines ?t)" "truthy (attrs ?t)"
    by (simp_all add: truthy_def)
  have tu: "truthy (combines ?u)" "truthy (pseudoElements ?u)"
    by (simp_all add: truthy_def)
  from combined_instance_fragments [where s = ?t and v = "''c''"] tt
  have 5: "class_method ?t ''c'' = (Threw OrderViolation, ?t)"
    by blast
  from combined_instance_fragments [where s = ?u and v = "''hover''"] tu
  have 6: "pseudoClass ?u ''hover'' = (Threw OrderViolation, ?u)"
    by blast
  have t: "truthy (combines ?s)" "\<not> truthy (attrs ?s)" "\<not> truthy (pseudoClasses ?s)"
    "\<not> truthy (pseudoElements ?s)"
    by (simp_all add: truthy_def fresh_fields)
  have r: "\<forall>c \<in> set [Class ''c'', PseudoClass ''hover'', Class ''d'']. rank c < 6"
    by simp
  have i: "rank (Id ''main'') < 6"
    by simp
  have n: "id_method new_CreateElement ''main'' = (Returned, new_CreateElement\<lparr>ids := ''#main''\<rparr>)"
    by (simp add: id_method_def checkFollowing_simps truthy_def fresh_fields)
  note w = combined_instance_fragments
    [where c = "Id ''main''" and s = new_CreateElement and x = "''a + b''"]
  note w' = combined_instance_fragments
    [where s = ?s and cs = "[Class ''c'', PseudoClass ''hover'', Class ''d'']" and v = "''c''"]
  note w'' = combined_instance_fragments
    [where s = ?s and v = "''hover''"]
  from w i have "invoke ?s (Id ''main'')
      = (fst (invoke new_CreateElement (Id ''main'')),
         (snd (invoke new_CreateElement (Id ''main'')))\<lparr>combines := ''a + b''\<rparr>)"
    by blast
  then have 1: "invoke ?s (Id ''main'')
      = (Returned, new_CreateElement\<lparr>ids := ''#main'', combines := ''a + b''\<rparr>)"
    by (simp add: n)
  from w' t r have 2: "stringify (snd (chain ?s [Class ''c'', PseudoClass ''hover'', Class ''d'']))
      = combines ?s"
    by blast
  from w' t have "class_method ?s ''c'' = (Returned, ?s\<lparr>classes := classes ?s @ ''.'' @ ''c''\<rparr>)"
    by blast
  then have 3: "class_method ?s ''c''
      = (Returned, new_CreateElement\<lparr>classes := ''.c'', combines := ''a + b''\<rparr>)"
    by (simp add: new_CreateElement_def)
  from w'' t have "pseudoClass ?s ''hover''
      = (Returned, ?s\<lparr>pseudoClasses := pseudoClasses ?s @ '':'' @ ''hover''\<rparr>)"
    by blast
  then have 4: "pseudoClass ?s ''hover''
      = (Returned, new_CreateElement\<lparr>pseudoClasses := '':hover'', combines := ''a + b''\<rparr>)"
    by (simp add: new_CreateElement_def)
  have "truthy (combines ?s) \<and> stringify (snd (chain ?s [Class ''c'', PseudoClass ''hover'', Class ''d'']))
      = ''a + b''"
    using t(1) 2 by simp
  with 1 3 4 tt(2) 5 tu(2) 6 show ?thesis
    by blast
qed

section \<open>The rectangle\<close>

text \<open>
  C9. The object \<open>Rectangle(w, h)\<close> returns has \<open>width\<close> \<open>w\<close> and \<open>height\<close> \<open>h\<close>, and
  its \<open>getArea()\<close> returns \<open>w * h\<close>, the product of the constructor's arguments: it
  still does after the fields \<open>width\<close> and \<open>height\<close> of the object were reassigned.
\<close>

theorem rectangle_area_closure:
  "width (Rectangle w h) = w
   \<and> height (Rectangle w h) = h
   \<and> getArea (Rectangle w h) () = w * h
   \<and> getArea ((Rectangle w h)\<lparr>width := w'\<rparr>) () = w * h
   \<and> getArea ((Rectangle w h)\<lparr>height := h'\<rparr>) () = w * h
   \<and> getArea ((Rectangle w h)\<lparr>width := w', height := h'\<rparr>) () = w * h"
  by (simp add: Rectangle_def)

theorem rectangle_area_closure_witness:
  "width (Rectangle (10::int) 20) = 10
   \<and> height (Rectangle (10::int) 20) = 20
   \<and> getArea (Rectangle (10::int) 20) () = 200
   \<and> getArea ((Rectangle (10::int) 20)\<lparr>width := 3, height := 4\<rparr>) () = 200"
  using rectangle_area_closure [of "10::int" 20 3 4] by simp

section \<open>The JSON round trip\<close>

lemma undecimal_snoc: "undecimal (s @ [c]) = 10 * undecimal s + (of_char c - 48)"
  by (simp add: undecimal_def)

lemma digit_value: "d < 10 \<Longrightarrow> of_char (char_of (48 + d) :: char) - 48 = (d::nat)"
  by simp

lemma undecimal_decimal: "undecimal (decimal n) = n"
proof (induction n rule: decimal.induct)
  case (1 n)
  show ?case
  proof (cases "n < 10")
    case True
    then show ?thesis
      using digit_value [of n] by (simp add: undecimal_def)
  next
    case False
    with 1 have ih: "undecimal (decimal (n div 10)) = n div 10"
      by simp
    have "undecimal (decimal n) = undecimal (decimal (n div 10) @ [char_of (48 + n mod 10)])"
      using False by simp
    also have "\<dots> = 10 * (n div 10) + n mod 10"
      using digit_value [of "n mod 10"] by (simp only: undecimal_snoc ih)
    finally show ?thesis
      by simp
  qed
qed

lemma inj_decimal: "inj decimal"
  by (rule inj_on_inverseI [where g = undecimal]) (rule undecimal_decimal)

lemma distinct_indices: "distinct (map decimal [0..<n])"
  by (simp add: distinct_map inj_decimal [THEN inj_on_subset])

lemma distinct_array_keys: "distinct (map fst (own_entries (JArr xs)))"
  by (simp add: own_entries_def distinct_indices)

lemma distinct_string_keys: "distinct (map fst (own_entries (JStr s :: 'n jsvalue)))"
  by (simp add: own_entries_def distinct_indices)

lemma property_get_own:
  "distinct (map fst (own_entries obj)) \<Longrightarrow> (k, x) \<in> set (own_entries obj) \<Longrightarrow>
   property_get obj k = x"
  by (simp add: property_get_def)

text \<open>
  The loop of \<open>fromJSON\<close> over keys that are new to the object and that its prototype
  chain does not intercept appends one own property per key.
\<close>

lemma forEach_assign:
  assumes "distinct (map fst es)"
    and "set (map fst es) \<inter> set (map fst (own r)) = {}"
    and "\<forall>k \<in> set (map fst es). inherited rt (prototype r) k = None"
    and "\<forall>(k, x) \<in> set es. property_get obj k = x"
  shows "forEach (map fst es) (\<lambda>key result. assign rt result key (property_get obj key)) r
           = Inr (r\<lparr>own := own r @ es\<rparr>)"
  using assms
proof (induction es arbitrary: r)
  case Nil
  then show ?case by simp
next
  case (Cons e es)
  obtain k x where e: "e = (k, x)"
    by (cases e)
  let ?r1 = "r\<lparr>own := own r @ [(k, x)]\<rparr>"
  from Cons.prems e have a: "assign rt r k (property_get obj k) = Inr ?r1"
    by (auto simp: assign_def)
  have "forEach (map fst es) (\<lambda>key result. assign rt result key (property_get obj key)) ?r1
           = Inr (?r1\<lparr>own := own ?r1 @ es\<rparr>)"
    using Cons.prems e by (intro Cons.IH) auto
  with a e show ?case
    by simp
qed

lemma fromJSON_plain:
  assumes "JSON_parse rt (JSON_stringify rt v) = Inr v"
    and "v \<noteq> JNull" "v \<noteq> JUndefined"
    and "distinct (map fst (own_entries v))"
    and "\<forall>k \<in> set (map fst (own_entries v)). inherited rt proto k = None"
  shows "fromJSON rt proto (getJSON rt v) = Inr \<lparr>prototype = proto, own = own_entries v\<rparr>"
proof -
  have k: "Object_keys v = Inr (map fst (own_entries v))"
    using assms(2,3) by (cases v) (simp_all add: Object_keys_def)
  have "forEach (map fst (own_entries v))
          (\<lambda>key result. assign rt result key (property_get v key))
          \<lparr>prototype = proto, own = []\<rparr>
        = Inr (\<lparr>prototype = proto, own = []\<rparr>
                \<lparr>own := own \<lparr>prototype = proto, own = []\<rparr> @ own_entries v\<rparr>)"
    using assms(4,5) by (intro forEach_assign) (auto simp: property_get_own)
  then show ?thesis
    by (simp add: fromJSON_def getJSON_def assms(1) k)
qed

text \<open>
  What the prototype chain does to a key it intercepts is all that happens to that key:
  with a read-only property or an accessor of that name in the chain (for a prototype
  that inherits from \<open>Object.prototype\<close>, the name \<open>__proto__\<close>), no own field need
  appear.
\<close>

lemma fromJSON_intercepted:
  assumes "JSON_parse rt (JSON_stringify rt (JObj [(k, x)])) = Inr (JObj [(k, x)])"
    and "inherited rt proto k = Some setter"
  shows "fromJSON rt proto (getJSON rt (JObj [(k, x)]))
           = setter \<lparr>prototype = proto, own = []\<rparr> x"
  by (simp add: fromJSON_def getJSON_def assms Object_keys_def own_entries_def assign_def
      property_get_def split: sum.splits)

lemma example_runtime_simps:
  \<open>JSON_stringify example_runtime JNull = ''null''\<close>
  \<open>JSON_parse example_runtime ''null'' = Inr JNull\<close>
  \<open>JSON_stringify example_runtime (JObj [(''radius'', JNum 10)]) = ''{"radius":10}''\<close>
  \<open>JSON_parse example_runtime ''{"radius":10}'' = Inr (JObj [(''radius'', JNum 10)])\<close>
  \<open>inherited example_runtime p k = None\<close>
  by (simp_all add: example_runtime_def example_stringify_def example_parse_def)

text \<open>
  C7, as the code has it. Let \<open>v\<close> be a value that the runtime's JSON round-trips and
  that is not \<open>null\<close>, with distinct own keys (an array and a string always have them),
  and let \<open>proto\<close> be a prototype whose chain intercepts the assignment to none of these
  keys. Then \<open>fromJSON(proto, getJSON(v))\<close> returns an object whose prototype is \<open>proto\<close>
  and whose own fields are the own enumerable fields of \<open>v\<close>, with their values, in the
  same order.
\<close>

theorem fromJSON_getJSON_roundtrip:
  "(JSON_parse rt (JSON_stringify rt v) = Inr v \<and> v \<noteq> JNull \<and> v \<noteq> JUndefined
      \<and> distinct (map fst (own_entries v))
      \<and> (\<forall>k \<in> set (map fst (own_entries v)). inherited rt proto k = None)
    \<longrightarrow> fromJSON rt proto (getJSON rt v) = Inr \<lparr>prototype = proto, own = own_entries v\<rparr>)
   \<and> distinct (map fst (own_entries (JArr xs :: 'n jsvalue)))
   \<and> distinct (map fst (own_entries (JStr s :: 'n jsvalue)))"
  using fromJSON_plain [of rt v proto] distinct_array_keys [of xs] distinct_string_keys [of s]
  by blast

text \<open>
  \<open>null\<close> is a value the runtime's JSON round-trips (as the text \<open>null\<close>), and
  \<open>fromJSON(proto, getJSON(null))\<close> throws a \<open>TypeError\<close>, from \<open>Object.keys(null)\<close>.
\<close>

theorem fromJSON_null_throws:
  "JSON_parse example_runtime (JSON_stringify example_runtime JNull) = Inr JNull
   \<and> fromJSON example_runtime () (getJSON example_runtime JNull) = Inl TypeError"
  by (simp add: fromJSON_def getJSON_def example_runtime_simps Object_keys_def)

theorem fromJSON_getJSON_roundtrip_witness:
  "JSON_parse example_runtime (JSON_stringify example_runtime (JObj [(''radius'', JNum 10)]))
     = Inr (JObj [(''radius'', JNum 10)])
   \<and> distinct (map fst (own_entries (JObj [(''radius'', JNum (10::int))])))
   \<and> fromJSON example_runtime () (getJSON example_runtime (JObj [(''radius'', JNum 10)]))
       = Inr \<lparr>prototype = (), own = [(''radius'', JNum 10)]\<rparr>"
proof -
  let ?v = "JObj [(''radius'', JNum (10::int))]"
  have 1: "JSON_parse example_runtime (JSON_stringify example_runtime ?v) = Inr ?v"
    by (simp add: example_runtime_simps)
  have 2: "distinct (map fst (own_entries ?v))"
    by (simp add: own_entries_def)
  have 3: "\<forall>k \<in> set (map fst (own_entries ?v)). inherited example_runtime () k = None"
    by (simp add: example_runtime_simps)
  from fromJSON_getJSON_roundtrip [where rt = example_runtime and v = ?v and proto = "()"] 1 2 3
  have "fromJSON example_runtime () (getJSON example_runtime ?v)
          = Inr \<lparr>prototype = (), own = own_entries ?v\<rparr>"
    by blast
  then have "fromJSON example_runtime () (getJSON example_runtime ?v)
          = Inr \<lparr>prototype = (), own = [(''radius'', JNum 10)]\<rparr>"
    by (simp add: own_entries_def)
  with 1 2 show ?thesis
    by blast
qed

end
